theory Spec2Isabelle
  imports Complex_Main "HOL-Library.AList"
begin

section \<open>Grid view (class GridView)\<close>


record GridView =
  resolution :: real
  minX :: int
  minY :: int
  stepsX :: int
  stepsY :: int






section \<open>Level-of-detail selection (TiledGeoJSON.updateView, first part)\<close>

text \<open>
  \<open>map.getZoom() + (this.options.detectRetina && L.Browser.retina ? 1 : 0)\<close>
\<close>

definition effectiveZoom :: "real \<Rightarrow> bool \<Rightarrow> bool \<Rightarrow> real" where
  "effectiveZoom mapZoom detectRetina retina =
     mapZoom + (if detectRetina \<and> retina then 1 else 0)"

text \<open>
  The two loops that choose \<open>bestLod\<close>. A level of detail is an object; the model names
  it by its index in \<open>this.lods\<close>, and the loops read only \<open>lod.meta.maxZoom\<close>, so the
  selection takes the list of those numbers. \<open>None\<close> is \<open>undefined\<close>.
\<close>

definition fitStep :: "real \<Rightarrow> real list \<Rightarrow> nat option \<Rightarrow> nat \<Rightarrow> nat option" where
  "fitStep zoom mz bestLod lod =
     (if zoom \<le> mz ! lod \<and> (case bestLod of None \<Rightarrow> True | Some b \<Rightarrow> mz ! lod < mz ! b)
      then Some lod else bestLod)"

definition fallbackStep :: "real list \<Rightarrow> nat option \<Rightarrow> nat \<Rightarrow> nat option" where
  "fallbackStep mz bestLod lod =
     (if (case bestLod of None \<Rightarrow> True | Some b \<Rightarrow> mz ! lod > mz ! b)
      then Some lod else bestLod)"

definition chooseBestLod :: "real \<Rightarrow> real list \<Rightarrow> nat option" where
  "chooseBestLod zoom mz =
     (case foldl (fitStep zoom mz) None [0..<length mz] of
        Some b \<Rightarrow> Some b
      | None \<Rightarrow> foldl (fallbackStep mz) None [0..<length mz])"

section \<open>Features and tiles (class TiledGeoJSONTile)\<close>

text \<open>
  A GeoJSON feature: its \<open>__fid\<close> (\<open>None\<close> when it is \<open>undefined\<close>) and the rest of
  the record, which the code never inspects.
\<close>

datatype feature = Feature (fid_of: "int option") (geojson: string)

text \<open>
  \<open>L.GeoJSON.addData\<close> builds one map layer for each feature of the collection and hands
  it to \<open>addLayer\<close>; \<open>layer.feature\<close> is that feature. A layer is named by the position
  of its feature in the collection, together with the feature.
\<close>

type_synonym layer = "nat \<times> feature"

text \<open>
  The fields of a tile. \<open>key\<close> is read-only and is always the index under which the tile
  is stored in \<open>tiles\<close> of its level of detail, so the model keeps it there.
  \<open>shown\<close> is the layer group the tile inherits from \<open>L.GeoJSON\<close>: the layers it
  currently displays. \<open>maskedFeatures\<close> is an association list, so that \<open>unmaskAll\<close>
  can enumerate its keys.
\<close>

record tile =
  hash :: string
  fulfilled :: bool
  featureCollection :: "feature list option"
  maskedFeatures :: "(int \<times> feature) list"
  featureLayers :: "int option \<rightharpoonup> layer"
  shown :: "layer set"

definition TiledGeoJSONTile_new :: "string \<Rightarrow> tile" where
  "TiledGeoJSONTile_new h =
     \<lparr>hash = h, fulfilled = False, featureCollection = None, maskedFeatures = [],
      featureLayers = Map.empty, shown = {}\<rparr>"

text \<open>The overriding \<open>addLayer\<close>: record the layer under its feature's id, then add it.\<close>

definition tile_addLayer :: "tile \<Rightarrow> layer \<Rightarrow> tile" where
  "tile_addLayer t l =
     t\<lparr>featureLayers := (featureLayers t)(fid_of (snd l) \<mapsto> l), shown := insert l (shown t)\<rparr>"

text \<open>
  \<open>this.addLayer(this.featureLayers[fid])\<close>. With no layer recorded for the id the source
  would read a field of \<open>undefined\<close>; lemma \<open>masked_has_layer\<close> below shows that a masked
  id of a well-formed tile always has its layer, so that branch is not taken there.
\<close>

definition tile_addLayer_of :: "tile \<Rightarrow> layer option \<Rightarrow> tile" where
  "tile_addLayer_of t lo = (case lo of None \<Rightarrow> t | Some l \<Rightarrow> tile_addLayer t l)"

text \<open>The inherited \<open>removeLayer\<close>; it ignores a layer that is not in the group.\<close>

definition tile_removeLayer_of :: "tile \<Rightarrow> layer option \<Rightarrow> tile" where
  "tile_removeLayer_of t lo = (case lo of None \<Rightarrow> t | Some l \<Rightarrow> t\<lparr>shown := shown t - {l}\<rparr>)"

definition addData :: "tile \<Rightarrow> feature list \<Rightarrow> tile" where
  "addData t fs = foldl tile_addLayer t (enumerate 0 fs)"

definition maskFeature :: "tile \<Rightarrow> int \<Rightarrow> tile" where
  "maskFeature t i =
     (case featureCollection t of
        None \<Rightarrow> t
      | Some fs \<Rightarrow>
          tile_removeLayer_of
            (t\<lparr>maskedFeatures :=
                 foldl (\<lambda>m feat. if fid_of feat = Some i then AList.update i feat m else m)
                   (maskedFeatures t) fs\<rparr>)
            (featureLayers t (Some i)))"

definition unmaskFeature :: "tile \<Rightarrow> int \<Rightarrow> tile" where
  "unmaskFeature t i =
     (case map_of (maskedFeatures t) i of
        None \<Rightarrow> t
      | Some feat \<Rightarrow>
          tile_addLayer_of (t\<lparr>maskedFeatures := AList.delete i (maskedFeatures t)\<rparr>)
            (featureLayers t (Some i)))"

text \<open>The body of the loop of \<open>unmaskAll\<close>, and the loop over the keys taken at its start.\<close>

definition unmaskOne :: "tile \<Rightarrow> int \<Rightarrow> tile" where
  "unmaskOne t i =
     (tile_addLayer_of t (featureLayers t (Some i)))\<lparr>maskedFeatures := AList.delete i (maskedFeatures t)\<rparr>"

definition unmaskAll :: "tile \<Rightarrow> tile" where
  "unmaskAll t = foldl unmaskOne t (map fst (maskedFeatures t))"

text \<open>What the claims read of a tile.\<close>

definition masked :: "tile \<Rightarrow> int \<Rightarrow> bool" where
  "masked t i \<longleftrightarrow> map_of (maskedFeatures t) i \<noteq> None"

text \<open>The defined ids of a feature array, in order and as a set.\<close>

fun fid_list :: "feature list \<Rightarrow> int list" where
  "fid_list [] = []"
| "fid_list (f # fs) = (case fid_of f of None \<Rightarrow> fid_list fs | Some i \<Rightarrow> i # fid_list fs)"

definition fids :: "feature list \<Rightarrow> int set" where
  "fids fs = set (fid_list fs)"

definition tile_fids :: "tile \<Rightarrow> int set" where
  "tile_fids t = (case featureCollection t of None \<Rightarrow> {} | Some fs \<Rightarrow> fids fs)"

section \<open>Tile keys\<close>

text \<open>
  \<open>tileKey\<close> is the template string \<open>`${x},${y}`\<close>: the decimal numerals of the two cell
  coordinates (integers, as \<open>Math.floor\<close> returns them) with a comma between them.
\<close>

definition digit_char :: "nat \<Rightarrow> char" where
  "digit_char d = ''0123456789'' ! d"

fun js_string_of_nat :: "nat \<Rightarrow> string" where
  "js_string_of_nat n =
     (if n < 10 then [digit_char n] else js_string_of_nat (n div 10) @ [digit_char (n mod 10)])"

declare js_string_of_nat.simps [simp del]

definition js_string_of_int :: "int \<Rightarrow> string" where
  "js_string_of_int x =
     (if x < 0 then CHR ''-'' # js_string_of_nat (nat (- x)) else js_string_of_nat (nat x))"

definition tileKey :: "int \<Rightarrow> int \<Rightarrow> string" where
  "tileKey x y = js_string_of_int x @ '','' @ js_string_of_int y"






section \<open>One level of detail (class TiledGeoJSONLod)\<close>

text \<open>
  \<open>maxZoom\<close>, \<open>tileSize\<close> and \<open>tileIndex\<close> are the fields \<open>maxZoom\<close>, \<open>tileSize\<close> and
  \<open>tiles\<close> of \<open>this.meta\<close>. Tile objects live in \<open>tiles\<close>; every other reference to a
  tile object (the values of \<open>activeTiles\<close>, the layers of the layer group) is its key, so
  that a change to a tile is seen through all of them, as in the source.
  \<open>activeTiles\<close> lists its keys in insertion order, the order of \<open>Object.keys\<close>.
  \<open>lodLayers\<close> is the layer group the class inherits from \<open>L.LayerGroup\<close>: the tiles
  handed to the map for display.
\<close>

record lod =
  maxZoom :: real
  tileSize :: real
  tileIndex :: "string \<rightharpoonup> string"
  tiles :: "string \<rightharpoonup> tile"
  activeTiles :: "string list"
  featureHolders :: "int \<rightharpoonup> string list"
  lodLayers :: "string set"
  currentView :: "GridView option"

definition TiledGeoJSONLod_new :: "real \<Rightarrow> real \<Rightarrow> (string \<rightharpoonup> string) \<Rightarrow> lod" where
  "TiledGeoJSONLod_new mz ts idx =
     \<lparr>maxZoom = mz, tileSize = ts, tileIndex = idx, tiles = Map.empty, activeTiles = [],
      featureHolders = Map.empty, lodLayers = {}, currentView = None\<rparr>"

text \<open>A method call on the tile object stored under \<open>key\<close>.\<close>

definition on_tile :: "lod \<Rightarrow> string \<Rightarrow> (tile \<Rightarrow> tile) \<Rightarrow> lod" where
  "on_tile s key f = (case tiles s key of None \<Rightarrow> s | Some t \<Rightarrow> s\<lparr>tiles := (tiles s)(key \<mapsto> f t)\<rparr>)"

definition lod_addLayer :: "lod \<Rightarrow> string \<Rightarrow> lod" where
  "lod_addLayer s key = s\<lparr>lodLayers := insert key (lodLayers s)\<rparr>"

definition lod_removeLayer :: "lod \<Rightarrow> string \<Rightarrow> lod" where
  "lod_removeLayer s key = s\<lparr>lodLayers := lodLayers s - {key}\<rparr>"

text \<open>The body of the \<open>forEach\<close> of \<open>addFeatureHolders\<close>, for the tile stored under \<open>key\<close>.\<close>

definition addHolder :: "string \<Rightarrow> lod \<Rightarrow> feature \<Rightarrow> lod" where
  "addHolder key s feat =
     (case fid_of feat of
        None \<Rightarrow> s
      | Some i \<Rightarrow>
          let hs = (case featureHolders s i of None \<Rightarrow> [] | Some ks \<Rightarrow> ks);
              s1 = (if length hs > 0 then on_tile s key (\<lambda>t. maskFeature t i) else s)
          in s1\<lparr>featureHolders := (featureHolders s1)(i \<mapsto> hs @ [key])\<rparr>)"

definition addFeatureHolders :: "lod \<Rightarrow> string \<Rightarrow> lod" where
  "addFeatureHolders s key =
     (case tiles s key of
        None \<Rightarrow> s
      | Some t \<Rightarrow>
          (case featureCollection t of
             None \<Rightarrow> s
           | Some fs \<Rightarrow> foldl (addHolder key) s fs))"

text \<open>
  The body of the \<open>forEach\<close> of \<open>removeFeatureHolders\<close>. \<open>this.featureHolders[fid][0]\<close>
  of an empty array is \<open>undefined\<close>, which differs from every key. The loop that follows
  the \<open>forEach\<close> in the source only writes to the console and is left out.
\<close>

definition removeHolder :: "string \<Rightarrow> lod \<Rightarrow> feature \<Rightarrow> lod" where
  "removeHolder key s feat =
     (case fid_of feat of
        None \<Rightarrow> s
      | Some i \<Rightarrow>
          (case featureHolders s i of
             None \<Rightarrow> s
           | Some ks \<Rightarrow>
               let unmaskNext = (case ks of [] \<Rightarrow> False | k0 # _ \<Rightarrow> k0 = key);
                   s1 = (if \<not> unmaskNext then on_tile s key (\<lambda>t. unmaskFeature t i) else s);
                   ks' = filter (\<lambda>k. k \<noteq> key) ks;
                   s2 = s1\<lparr>featureHolders := (featureHolders s1)(i \<mapsto> ks')\<rparr>
               in (case ks' of
                     [] \<Rightarrow> s2
                   | k1 # _ \<Rightarrow> if unmaskNext then on_tile s2 k1 (\<lambda>t. unmaskFeature t i) else s2)))"

definition removeFeatureHolders :: "lod \<Rightarrow> string \<Rightarrow> lod" where
  "removeFeatureHolders s key =
     (case tiles s key of
        None \<Rightarrow> s
      | Some t \<Rightarrow>
          (case featureCollection t of
             None \<Rightarrow> s
           | Some fs \<Rightarrow> foldl (removeHolder key) s fs))"

text \<open>
  \<open>loadTile\<close> of the level of detail: the tile object is built once; building it starts
  the fetch, whose outcome arrives later (see \<open>tileLoaded\<close>).
\<close>

definition loadTile :: "lod \<Rightarrow> int \<Rightarrow> int \<Rightarrow> lod" where
  "loadTile s x y =
     (let key = tileKey x y in
      case tileIndex s key of
        None \<Rightarrow> s
      | Some h \<Rightarrow>
          if tiles s key = None then s\<lparr>tiles := (tiles s)(key \<mapsto> TiledGeoJSONTile_new h)\<rparr>
          else s)"

definition showTile :: "lod \<Rightarrow> int \<Rightarrow> int \<Rightarrow> lod" where
  "showTile s x y =
     (let key = tileKey x y in
      if tileIndex s key = None then s
      else
        let s1 = (if tiles s key = None then loadTile s x y else s) in
        case tiles s1 key of
          None \<Rightarrow> s1
        | Some t \<Rightarrow>
            let s2 = (if fulfilled t then lod_addLayer (addFeatureHolders s1 key) key else s1)
            in s2\<lparr>activeTiles :=
                    (if key \<in> set (activeTiles s2) then activeTiles s2
                     else activeTiles s2 @ [key])\<rparr>)"

text \<open>
  In \<open>hideTile\<close> the value \<open>this.activeTiles[key]\<close> is the tile object of \<open>tiles\<close>; an
  active key with no tile object does not occur, and the model then only drops the key.
\<close>

definition hideTile :: "lod \<Rightarrow> int \<Rightarrow> int \<Rightarrow> lod" where
  "hideTile s x y =
     (let key = tileKey x y in
      if key \<notin> set (activeTiles s) then s
      else
        let s1 = (case tiles s key of
                    None \<Rightarrow> s
                  | Some t \<Rightarrow>
                      if fulfilled t then removeFeatureHolders (lod_removeLayer s key) key else s)
        in s1\<lparr>activeTiles := removeAll key (activeTiles s1)\<rparr>)"

text \<open>
  The callback a level of detail gives each tile (the arrow function in \<open>loadTile\<close>), and
  the success branch of the tile's own \<open>loadTile\<close>, which receives the parsed features,
  stores them, marks the tile fulfilled, builds the layers and runs the callback.
\<close>

definition loadCallback :: "lod \<Rightarrow> string \<Rightarrow> lod" where
  "loadCallback s key =
     (if key \<in> set (activeTiles s) then lod_addLayer (addFeatureHolders s key) key else s)"

definition tileLoaded :: "lod \<Rightarrow> string \<Rightarrow> feature list \<Rightarrow> lod" where
  "tileLoaded s key features =
     loadCallback
       (on_tile s key (\<lambda>t. addData (t\<lparr>featureCollection := Some features, fulfilled := True\<rparr>) features))
       key"

text \<open>The body of the loop of \<open>clearActive\<close>, and \<open>clearActive\<close>.\<close>

definition clearTile :: "lod \<Rightarrow> string \<Rightarrow> lod" where
  "clearTile s key =
     (case tiles s key of
        None \<Rightarrow> s
      | Some t \<Rightarrow> if fulfilled t then on_tile (lod_removeLayer s key) key unmaskAll else s)"


text \<open>
  \<open>updateView\<close> of the level of detail. \<open>showCell\<close> is the body of the two nested loops
  over the window (\<open>showColumn\<close> is the inner loop); a hash is truthy when it is present
  and not the empty string.
  \<open>hideOutside\<close> is the body of the loop over \<open>Object.keys(this.activeTiles)\<close>, an
  array taken before the loop runs; a comparison with \<open>NaN\<close> is false.
\<close>

definition showCell :: "lod \<Rightarrow> int \<Rightarrow> int \<Rightarrow> lod" where
  "showCell s x y =
     (let key = tileKey x y; tileHash = tileIndex s key in
      if key \<notin> set (activeTiles s) \<and> tileHash \<noteq> None \<and> tileHash \<noteq> Some [] then showTile s x y
      else s)"




section \<open>The layer (class TiledGeoJSON)\<close>

text \<open>
  \<open>origin\<close> is \<open>this.meta.origin\<close>, \<open>None\<close> while the metadata has not arrived (then
  \<open>lods\<close> is empty). A level of detail is named by its index in \<open>lods\<close>;
  \<open>layerLods\<close> is the layer group the class inherits: the levels handed to the map.
\<close>

record TiledGeoJSON =
  detectRetina :: bool
  origin :: "(real \<times> real) option"
  lods :: "lod list"
  activeLod :: "nat option"
  layerLods :: "nat set"

definition TiledGeoJSON_new :: "bool \<Rightarrow> TiledGeoJSON" where
  "TiledGeoJSON_new dr =
     \<lparr>detectRetina = dr, origin = None, lods = [], activeLod = None, layerLods = {}\<rparr>"



section \<open>Fetching with retries (TiledGeoJSON.loadMeta, TiledGeoJSONTile.loadTile)\<close>

text \<open>
  A promise is modelled by the way it settles. \<open>then_p\<close> is \<open>.then(f)\<close> with one
  argument: a rejection passes through and \<open>f\<close> does not run. \<open>catch_p\<close> is
  \<open>.catch(h)\<close>: a fulfilled value passes through and \<open>h\<close> does not run.
\<close>

datatype 'a promise = Resolved 'a | Rejected string

definition then_p :: "'a promise \<Rightarrow> ('a \<Rightarrow> 'b promise) \<Rightarrow> 'b promise" where
  "then_p p f = (case p of Resolved a \<Rightarrow> f a | Rejected e \<Rightarrow> Rejected e)"

definition catch_p :: "'a promise \<Rightarrow> (string \<Rightarrow> 'a promise) \<Rightarrow> 'a promise" where
  "catch_p p h = (case p of Resolved a \<Rightarrow> Resolved a | Rejected e \<Rightarrow> h e)"

text \<open>
  What the network does to one request: \<open>fetch\<close> is rejected (no response) or gives a
  response, whose \<open>text()\<close> is rejected or gives the body. \<open>JSON.parse\<close> is a parameter
  \<open>parse\<close>; \<open>None\<close> is the exception it throws on a malformed body.
\<close>

datatype response = Response (text_of: "string promise")

text \<open>
  What one attempt does: it hands the parsed document to the success code, or it writes the
  message with \<open>retryTime\<close> to the console and calls \<open>setTimeout\<close> with a delay in
  milliseconds and with the \<open>retryTime\<close> of the next attempt.
\<close>

datatype 'a effect = Loaded 'a | Retry (logged: nat) (delay: nat) (next_retryTime: nat)

definition parsed :: "(string \<Rightarrow> 'a option) \<Rightarrow> string \<Rightarrow> 'a effect promise" where
  "parsed parse txt = (case parse txt of None \<Rightarrow> Rejected ''SyntaxError'' | Some d \<Rightarrow> Resolved (Loaded d))"

definition retry :: "nat \<Rightarrow> string \<Rightarrow> 'a effect promise" where
  "retry retryTime err = Resolved (Retry retryTime (retryTime * 1000) (retryTime * 2))"

text \<open>
  The promise chain of \<open>loadMeta\<close>:
  \<open>fetch(..).then(response => response.text().then(text => {..}).catch(err => {..}))\<close>.
  The \<open>catch\<close> is attached inside the callback of the outer \<open>then\<close>.
\<close>

definition loadMeta_attempt :: "(string \<Rightarrow> 'a option) \<Rightarrow> nat \<Rightarrow> response promise \<Rightarrow> 'a effect promise" where
  "loadMeta_attempt parse retryTime fetched =
     then_p fetched
       (\<lambda>response. catch_p (then_p (text_of response) (parsed parse)) (retry retryTime))"

text \<open>
  The promise chain of the tile's \<open>loadTile\<close>:
  \<open>fetch(..).then(response => response.text()).then(text => {..}).catch(err => {..})\<close>.
\<close>

definition loadTile_attempt :: "(string \<Rightarrow> 'a option) \<Rightarrow> nat \<Rightarrow> response promise \<Rightarrow> 'a effect promise" where
  "loadTile_attempt parse retryTime fetched =
     catch_p (then_p (then_p fetched text_of) (parsed parse)) (retry retryTime)"

text \<open>
  A load against the outcomes of its successive requests. The result lists what happens:
  a scheduled retry, the document being handed over, or a rejection nobody handles (the
  chain ends rejected, nothing is logged by the code and nothing is scheduled). The list of
  outcomes running out means the last request is still pending.
\<close>

datatype 'a event = Scheduled nat nat | Done 'a | Unhandled string

fun run_load ::
  "(nat \<Rightarrow> response promise \<Rightarrow> 'a effect promise) \<Rightarrow> nat \<Rightarrow> response promise list \<Rightarrow> 'a event list"
where
  "run_load attempt retryTime [] = []"
| "run_load attempt retryTime (fetched # rest) =
     (case attempt retryTime fetched of
        Rejected e \<Rightarrow> [Unhandled e]
      | Resolved (Loaded d) \<Rightarrow> [Done d]
      | Resolved (Retry shown_s ms next) \<Rightarrow> Scheduled shown_s ms # run_load attempt next rest)"

text \<open>Both loads start with the default argument \<open>retryTime = 1\<close>.\<close>

definition loadMeta :: "(string \<Rightarrow> 'a option) \<Rightarrow> response promise list \<Rightarrow> 'a event list" where
  "loadMeta parse outcomes = run_load (loadMeta_attempt parse) 1 outcomes"

definition tile_loadTile :: "(string \<Rightarrow> 'a option) \<Rightarrow> response promise list \<Rightarrow> 'a event list" where
  "tile_loadTile parse outcomes = run_load (loadTile_attempt parse) 1 outcomes"

text \<open>A request fails when the fetch, the reading of the body, or the parsing fails.\<close>

definition fails :: "(string \<Rightarrow> 'a option) \<Rightarrow> response promise \<Rightarrow> bool" where
  "fails parse fetched =
     (case fetched of
        Rejected e \<Rightarrow> True
      | Resolved r \<Rightarrow> (case text_of r of Rejected e \<Rightarrow> True | Resolved txt \<Rightarrow> parse txt = None))"


section \<open>States of a level of detail: what is reachable and what is read\<close>

text \<open>A tile's data has unique ids when no defined id occurs twice in it.\<close>

definition unique_fids :: "feature list \<Rightarrow> bool" where
  "unique_fids fs \<longleftrightarrow> distinct (fid_list fs)"

text \<open>The holder sequence of an id (\<open>this.featureHolders[fid]\<close>, empty when absent).\<close>

definition holders :: "lod \<Rightarrow> int \<Rightarrow> string list" where
  "holders s i = (case featureHolders s i of None \<Rightarrow> [] | Some ks \<Rightarrow> ks)"

definition tile_fulfilled :: "lod \<Rightarrow> string \<Rightarrow> bool" where
  "tile_fulfilled s k = (case tiles s k of None \<Rightarrow> False | Some t \<Rightarrow> fulfilled t)"

definition tile_has :: "lod \<Rightarrow> string \<Rightarrow> int \<Rightarrow> bool" where
  "tile_has s k i = (case tiles s k of None \<Rightarrow> False | Some t \<Rightarrow> i \<in> tile_fids t)"

definition tile_masked :: "lod \<Rightarrow> string \<Rightarrow> int \<Rightarrow> bool" where
  "tile_masked s k i = (case tiles s k of None \<Rightarrow> False | Some t \<Rightarrow> masked t i)"





text \<open>
  Invariants. A tile is well formed when, before its data arrives, it has no features,
  masks and layers, and afterwards its ids are unique, only ids of its features are masked,
  each id has the layer of its feature recorded, and the layers it shows are those of the
  features that are not masked.
\<close>

definition tile_wf :: "tile \<Rightarrow> bool" where
  "tile_wf t \<longleftrightarrow>
     (case featureCollection t of
        None \<Rightarrow> \<not> fulfilled t \<and> maskedFeatures t = [] \<and> shown t = {} \<and> featureLayers t = Map.empty
      | Some fs \<Rightarrow>
          fulfilled t \<and> unique_fids fs
          \<and> (\<forall>i. masked t i \<longrightarrow> i \<in> fids fs)
          \<and> (\<forall>i l. featureLayers t (Some i) = Some l
                  \<longleftrightarrow> (\<exists>n<length fs. l = (n, fs ! n) \<and> fid_of (fs ! n) = Some i))
          \<and> shown t = {(n, fs ! n) | n. n < length fs \<and> \<not> (\<exists>i. fid_of (fs ! n) = Some i \<and> masked t i)})"

text \<open>
  What holds of the registry at every step of the loops of \<open>addFeatureHolders\<close> and
  \<open>removeFeatureHolders\<close>: a holder sequence has no key twice, its keys are tiles with the
  feature, and a tile has an id masked exactly when its key is in the sequence of the id
  but not at its head.
\<close>

definition registry_ok :: "lod \<Rightarrow> bool" where
  "registry_ok s \<longleftrightarrow>
     (\<forall>k t. tiles s k = Some t \<longrightarrow> tile_wf t)
     \<and> (\<forall>i. distinct (holders s i))
     \<and> (\<forall>i k. k \<in> set (holders s i) \<longrightarrow> tile_has s k i)
     \<and> (\<forall>k i. tile_masked s k i \<longleftrightarrow> k \<in> set (holders s i) \<and> hd (holders s i) \<noteq> k)"

definition lod_inv :: "lod \<Rightarrow> bool" where
  "lod_inv s \<longleftrightarrow>
     registry_ok s
     \<and> distinct (activeTiles s)
     \<and> (\<forall>k\<in>set (activeTiles s). tiles s k \<noteq> None)
     \<and> (\<forall>i k. k \<in> set (holders s i) \<longleftrightarrow> k \<in> set (activeTiles s) \<and> tile_has s k i)
     \<and> lodLayers s = {k \<in> set (activeTiles s). tile_fulfilled s k}"

text \<open>
  What the loops over the features of a tile leave alone: the active keys, the layer group,
  the stored view, the metadata, which tiles exist, and the data of every tile.
\<close>

definition frame :: "lod \<Rightarrow> lod \<Rightarrow> bool" where
  "frame s s' \<longleftrightarrow>
     activeTiles s' = activeTiles s \<and> lodLayers s' = lodLayers s \<and> currentView s' = currentView s
     \<and> tileIndex s' = tileIndex s \<and> maxZoom s' = maxZoom s \<and> tileSize s' = tileSize s
     \<and> (\<forall>k. (tiles s' k = None) = (tiles s k = None))
     \<and> (\<forall>k. tile_fulfilled s' k = tile_fulfilled s k)
     \<and> (\<forall>k i. tile_has s' k i = tile_has s k i)"



section \<open>A worked example\<close>

text \<open>
  A tile is pending when its object exists and its data has not arrived; \<open>any_data\<close>
  assumes nothing of the data that arrives.
\<close>

definition tile_pending :: "lod \<Rightarrow> string \<Rightarrow> bool" where
  "tile_pending s k = (case tiles s k of None \<Rightarrow> False | Some t \<Rightarrow> \<not> fulfilled t)"


text \<open>
  One level of detail with the two tiles \<open>0,0\<close> and \<open>1,0\<close>. In the first run both are
  shown and loaded, and the feature 7 lies in both. In the second run the data of each
  tile lists the feature 7 twice.
\<close>

definition example_index :: "string \<rightharpoonup> string" where
  "example_index = [''0,0'' \<mapsto> ''h1'', ''1,0'' \<mapsto> ''h2'']"

definition example_lod :: lod where
  "example_lod = TiledGeoJSONLod_new 5 10 example_index"

definition road :: feature where "road = Feature (Some 7) ''road''"

definition lake :: feature where "lake = Feature (Some 1) ''lake''"

definition shared_a :: lod where "shared_a = showCell example_lod 0 0"

definition shared_b :: lod where "shared_b = tileLoaded shared_a ''0,0'' [road, lake]"

definition shared_c :: lod where "shared_c = showCell shared_b 1 0"

definition shared_d :: lod where "shared_d = tileLoaded shared_c ''1,0'' [road]"





section \<open>Properties of the grid view\<close>




section \<open>Properties of the selection\<close>

lemma fit_fold:
  assumes "case b of None \<Rightarrow> True | Some b' \<Rightarrow> zoom \<le> mz ! b'"
  shows "case foldl (fitStep zoom mz) b ls of
           None \<Rightarrow> b = None \<and> (\<forall>i\<in>set ls. \<not> zoom \<le> mz ! i)
         | Some k \<Rightarrow> (k \<in> set ls \<or> b = Some k) \<and> zoom \<le> mz ! k
                      \<and> (\<forall>i\<in>set ls. zoom \<le> mz ! i \<longrightarrow> mz ! k \<le> mz ! i)
                      \<and> (\<forall>b'. b = Some b' \<longrightarrow> mz ! k \<le> mz ! b')"
  using assms
proof (induction ls arbitrary: b)
  case Nil
  then show ?case by (cases b) simp_all
next
  case (Cons l ls)
  let ?b = "fitStep zoom mz b l"
  have pre: "case ?b of None \<Rightarrow> True | Some b' \<Rightarrow> zoom \<le> mz ! b'"
    using Cons.prems by (auto simp: fitStep_def split: option.splits)
  from Cons.IH [OF pre] show ?case
    by (cases b) (auto simp: fitStep_def split: option.splits if_splits)
qed

lemma fallback_fold:
  "case foldl (fallbackStep mz) b ls of
     None \<Rightarrow> b = None \<and> ls = []
   | Some k \<Rightarrow> (k \<in> set ls \<or> b = Some k)
                \<and> (\<forall>i\<in>set ls. mz ! i \<le> mz ! k)
                \<and> (\<forall>b'. b = Some b' \<longrightarrow> mz ! b' \<le> mz ! k)"
proof (induction ls arbitrary: b)
  case Nil
  then show ?case by (cases b) simp_all
next
  case (Cons l ls)
  from Cons.IH [of "fallbackStep mz b l"] show ?case
    by (cases b) (auto simp: fallbackStep_def split: option.splits if_splits)
qed

lemma chooseBestLod_fit:
  assumes "\<exists>i<length mz. zoom \<le> mz ! i"
  shows "\<exists>k<length mz. chooseBestLod zoom mz = Some k \<and> zoom \<le> mz ! k
           \<and> (\<forall>i<length mz. zoom \<le> mz ! i \<longrightarrow> mz ! k \<le> mz ! i)"
proof -
  have "case foldl (fitStep zoom mz) None [0..<length mz] of
           None \<Rightarrow> None = (None :: nat option) \<and> (\<forall>i\<in>set [0..<length mz]. \<not> zoom \<le> mz ! i)
         | Some k \<Rightarrow> (k \<in> set [0..<length mz] \<or> None = Some k) \<and> zoom \<le> mz ! k
                      \<and> (\<forall>i\<in>set [0..<length mz]. zoom \<le> mz ! i \<longrightarrow> mz ! k \<le> mz ! i)
                      \<and> (\<forall>b'. None = Some b' \<longrightarrow> mz ! k \<le> mz ! b')"
    by (rule fit_fold) simp
  with assms show ?thesis
    by (auto simp: chooseBestLod_def split: option.splits)
qed

lemma chooseBestLod_fallback:
  assumes "mz \<noteq> []" and "\<forall>i<length mz. \<not> zoom \<le> mz ! i"
  shows "\<exists>k<length mz. chooseBestLod zoom mz = Some k \<and> (\<forall>i<length mz. mz ! i \<le> mz ! k)"
proof -
  have "case foldl (fitStep zoom mz) None [0..<length mz] of
           None \<Rightarrow> None = (None :: nat option) \<and> (\<forall>i\<in>set [0..<length mz]. \<not> zoom \<le> mz ! i)
         | Some k \<Rightarrow> (k \<in> set [0..<length mz] \<or> None = Some k) \<and> zoom \<le> mz ! k
                      \<and> (\<forall>i\<in>set [0..<length mz]. zoom \<le> mz ! i \<longrightarrow> mz ! k \<le> mz ! i)
                      \<and> (\<forall>b'. None = Some b' \<longrightarrow> mz ! k \<le> mz ! b')"
    by (rule fit_fold) simp
  with assms(2) have none: "foldl (fitStep zoom mz) None [0..<length mz] = None"
    by (auto split: option.splits)
  from fallback_fold [where mz = mz and b = None and ls = "[0..<length mz]"] assms(1)
  show ?thesis
    by (auto simp: chooseBestLod_def none split: option.splits)
qed

section \<open>Properties of the retry schedule\<close>

lemma loadTile_attempt_fails:
  "fails parse fetched \<Longrightarrow>
   loadTile_attempt parse retryTime fetched = Resolved (Retry retryTime (retryTime * 1000) (retryTime * 2))"
  by (auto simp: fails_def loadTile_attempt_def then_p_def catch_p_def parsed_def retry_def
           split: promise.splits option.splits)

lemma loadMeta_attempt_fails:
  "fails parse (Resolved r) \<Longrightarrow>
   loadMeta_attempt parse retryTime (Resolved r) = Resolved (Retry retryTime (retryTime * 1000) (retryTime * 2))"
  by (auto simp: fails_def loadMeta_attempt_def then_p_def catch_p_def parsed_def retry_def
           split: promise.splits option.splits)

lemma loadMeta_attempt_rejected:
  "loadMeta_attempt parse retryTime (Rejected e) = Rejected e"
  by (simp add: loadMeta_attempt_def then_p_def)

lemma upt_shift: "[0..<Suc n] = 0 # map Suc [0..<n]"
  by (simp add: upt_conv_Cons map_Suc_upt del: upt_Suc)

lemma run_load_backoff:
  assumes "\<And>rt f. f \<in> set outcomes \<Longrightarrow> attempt rt f = Resolved (Retry rt (rt * 1000) (rt * 2))"
  shows "run_load attempt retryTime outcomes =
         map (\<lambda>n. Scheduled (retryTime * 2 ^ n) (retryTime * 2 ^ n * 1000)) [0..<length outcomes]"
  using assms
proof (induction outcomes arbitrary: retryTime)
  case Nil
  then show ?case by simp
next
  case (Cons f fs)
  have step: "attempt retryTime f = Resolved (Retry retryTime (retryTime * 1000) (retryTime * 2))"
    by (rule Cons.prems) simp
  have rest: "run_load attempt (retryTime * 2) fs =
         map (\<lambda>n. Scheduled (retryTime * 2 * 2 ^ n) (retryTime * 2 * 2 ^ n * 1000)) [0..<length fs]"
    by (rule Cons.IH) (simp add: Cons.prems)
  show ?case
    by (simp add: step rest upt_shift comp_def mult.assoc del: upt_Suc)
qed

lemma tile_loadTile_backoff:
  assumes "\<forall>f\<in>set outcomes. fails parse f"
  shows "tile_loadTile parse outcomes =
         map (\<lambda>n. Scheduled (2 ^ n) (2 ^ n * 1000)) [0..<length outcomes]"
proof -
  have "run_load (loadTile_attempt parse) 1 outcomes =
         map (\<lambda>n. Scheduled (1 * 2 ^ n) (1 * 2 ^ n * 1000)) [0..<length outcomes]"
    using assms by (intro run_load_backoff) (simp add: loadTile_attempt_fails)
  then show ?thesis by (simp add: tile_loadTile_def)
qed

lemma loadMeta_backoff:
  assumes "\<forall>f\<in>set outcomes. \<exists>r. f = Resolved r \<and> fails parse f"
  shows "loadMeta parse outcomes =
         map (\<lambda>n. Scheduled (2 ^ n) (2 ^ n * 1000)) [0..<length outcomes]"
proof -
  have "run_load (loadMeta_attempt parse) 1 outcomes =
         map (\<lambda>n. Scheduled (1 * 2 ^ n) (1 * 2 ^ n * 1000)) [0..<length outcomes]"
    using assms by (intro run_load_backoff) (auto simp: loadMeta_attempt_fails)
  then show ?thesis by (simp add: loadMeta_def)
qed



section \<open>Tiles: masks and layers\<close>

lemma fids_Nil [simp]: "fids [] = {}"
  by (simp add: fids_def)

lemma fids_Cons:
  "fids (f # fs) = (case fid_of f of None \<Rightarrow> fids fs | Some k \<Rightarrow> insert k (fids fs))"
  by (simp add: fids_def split: option.splits)

lemma set_fid_list: "set (fid_list fs) = fids fs"
  by (simp add: fids_def)

lemma fids_iff: "fids fs = {i. Some i \<in> fid_of ` set fs}"
  by (induction fs) (auto simp: fids_Cons split: option.splits)

lemma fids_nth: "i \<in> fids fs \<longleftrightarrow> (\<exists>n<length fs. fid_of (fs ! n) = Some i)"
proof
  assume "i \<in> fids fs"
  then obtain f where "f \<in> set fs" "fid_of f = Some i"
    by (auto simp: fids_iff)
  then show "\<exists>n<length fs. fid_of (fs ! n) = Some i"
    by (auto simp: in_set_conv_nth)
next
  assume "\<exists>n<length fs. fid_of (fs ! n) = Some i"
  then obtain n where "n < length fs" "fid_of (fs ! n) = Some i" by blast
  then have "fs ! n \<in> set fs" "Some i = fid_of (fs ! n)" by simp_all
  then show "i \<in> fids fs" unfolding fids_iff by blast
qed

lemma unique_fids_nth:
  assumes "unique_fids fs" and "n < length fs" and "n' < length fs"
    and "fid_of (fs ! n) = Some i" and "fid_of (fs ! n') = Some i"
  shows "n = n'"
  using assms
proof (induction fs arbitrary: n n')
  case Nil
  then show ?case by simp
next
  case (Cons f fs)
  show ?case
  proof (cases n)
    case 0
    note n0 = this
    show ?thesis
    proof (cases n')
      case 0
      with n0 show ?thesis by simp
    next
      case (Suc m)
      with Cons.prems n0 have "fid_of f = Some i" "i \<in> fids fs"
        by (auto simp: fids_nth)
      with Cons.prems(1) show ?thesis
        by (simp add: unique_fids_def set_fid_list)
    qed
  next
    case (Suc m)
    note nS = this
    show ?thesis
    proof (cases n')
      case 0
      with Cons.prems nS have "fid_of f = Some i" "i \<in> fids fs"
        by (auto simp: fids_nth)
      with Cons.prems(1) show ?thesis
        by (simp add: unique_fids_def set_fid_list)
    next
      case (Suc m')
      from Cons.prems(1) have "unique_fids fs"
        by (simp add: unique_fids_def split: option.splits)
      with Cons.prems nS Suc have "m = m'"
        by (intro Cons.IH) simp_all
      with nS Suc show ?thesis by simp
    qed
  qed
qed



lemma masked_unmaskOne: "masked (unmaskOne t j) i \<longleftrightarrow> masked t i \<and> i \<noteq> j"
  by (auto simp: masked_def unmaskOne_def tile_addLayer_of_def tile_addLayer_def delete_conv
      simp del: not_None_eq split: option.splits)

lemma unmaskFeature_eq: "unmaskFeature t i = (if masked t i then unmaskOne t i else t)"
  by (auto simp: unmaskFeature_def unmaskOne_def masked_def tile_addLayer_of_def tile_addLayer_def
      split: option.splits)


lemma maskedFeatures_unmaskOne_fold:
  "maskedFeatures (foldl unmaskOne t ks) = filter (\<lambda>p. fst p \<notin> set ks) (maskedFeatures t)"
proof (induction ks arbitrary: t)
  case Nil
  show ?case by simp
next
  case (Cons k ks)
  have "maskedFeatures (unmaskOne t k) = filter (\<lambda>p. fst p \<noteq> k) (maskedFeatures t)"
    by (auto simp: unmaskOne_def AList.delete_eq tile_addLayer_of_def tile_addLayer_def
        split: option.splits intro: filter_cong)
  then show ?case
    by (simp add: Cons.IH conj_commute)
qed

lemma maskedFeatures_unmaskAll [simp]: "maskedFeatures (unmaskAll t) = []"
  by (simp add: unmaskAll_def maskedFeatures_unmaskOne_fold)

lemma masked_unmaskAll [simp]: "\<not> masked (unmaskAll t) i"
  by (simp add: masked_def)

text \<open>The data of a tile is not touched by masking and unmasking.\<close>

lemma maskFeature_data [simp]:
  "fulfilled (maskFeature t i) = fulfilled t"
  "featureCollection (maskFeature t i) = featureCollection t"
  "hash (maskFeature t i) = hash t"
  "featureLayers (maskFeature t i) = featureLayers t"
  by (simp_all add: maskFeature_def tile_removeLayer_of_def split: option.splits)

lemma unmaskOne_data [simp]:
  "fulfilled (unmaskOne t i) = fulfilled t"
  "featureCollection (unmaskOne t i) = featureCollection t"
  "hash (unmaskOne t i) = hash t"
  by (simp_all add: unmaskOne_def tile_addLayer_of_def tile_addLayer_def split: option.splits)

lemma unmaskFeature_data [simp]:
  "fulfilled (unmaskFeature t i) = fulfilled t"
  "featureCollection (unmaskFeature t i) = featureCollection t"
  "hash (unmaskFeature t i) = hash t"
  by (simp_all add: unmaskFeature_eq)

lemma unmaskOne_fold_data:
  "fulfilled (foldl unmaskOne t ks) = fulfilled t
   \<and> featureCollection (foldl unmaskOne t ks) = featureCollection t
   \<and> hash (foldl unmaskOne t ks) = hash t"
  by (induction ks arbitrary: t) simp_all

lemma unmaskAll_data [simp]:
  "fulfilled (unmaskAll t) = fulfilled t"
  "featureCollection (unmaskAll t) = featureCollection t"
  "hash (unmaskAll t) = hash t"
  by (simp_all add: unmaskAll_def unmaskOne_fold_data)

lemma tile_fids_ops [simp]:
  "tile_fids (maskFeature t i) = tile_fids t"
  "tile_fids (unmaskFeature t i) = tile_fids t"
  "tile_fids (unmaskOne t i) = tile_fids t"
  "tile_fids (unmaskAll t) = tile_fids t"
  by (simp_all add: tile_fids_def)


lemma add_one_layer:
  assumes same: "\<And>n. n < N \<Longrightarrow> g n = Some j \<Longrightarrow> n = n0" and n0: "n0 < (N::nat)" "g n0 = Some (j::int)"
  shows "insert (n0, F n0) {(n, F n) | n. n < N \<and> \<not> (\<exists>i. g n = Some i \<and> M i)}
       = {(n, F n) | n. n < N \<and> \<not> (\<exists>i. g n = Some i \<and> (M i \<and> i \<noteq> j))}"
    (is "insert _ ?A = ?B")
proof (intro equalityI subsetI)
  fix l assume "l \<in> insert (n0, F n0) ?A"
  then consider "l = (n0, F n0)" | "l \<in> ?A" by blast
  then show "l \<in> ?B"
  proof cases
    case 1
    with n0 show ?thesis by auto
  next
    case 2
    then show ?thesis by auto
  qed
next
  fix l assume "l \<in> ?B"
  then obtain n where n: "l = (n, F n)" "n < N" "\<not> (\<exists>i. g n = Some i \<and> (M i \<and> i \<noteq> j))"
    by auto
  show "l \<in> insert (n0, F n0) ?A"
  proof (cases "g n = Some j")
    case True
    with same n(2) have "n = n0" by blast
    with n(1) show ?thesis by simp
  next
    case False
    with n show ?thesis by auto
  qed
qed




lemma shown_unmaskOne:
  "shown (unmaskOne t j) = (case featureLayers t (Some j) of None \<Rightarrow> shown t | Some l \<Rightarrow> insert l (shown t))"
  by (simp add: unmaskOne_def tile_addLayer_of_def tile_addLayer_def split: option.splits)

lemma featureLayers_unmaskOne:
  "featureLayers (unmaskOne t j) =
     (case featureLayers t (Some j) of None \<Rightarrow> featureLayers t
      | Some l \<Rightarrow> (featureLayers t)(fid_of (snd l) \<mapsto> l))"
  by (simp add: unmaskOne_def tile_addLayer_of_def tile_addLayer_def split: option.splits)

lemma maskedFeatures_Nil_unmaskOne:
  "maskedFeatures t = [] \<Longrightarrow> maskedFeatures (unmaskOne t j) = []"
  by (simp add: unmaskOne_def tile_addLayer_of_def tile_addLayer_def split: option.splits)

lemma tile_wf_unmaskOne:
  assumes "tile_wf t"
  shows "tile_wf (unmaskOne t j)"
proof (cases "featureCollection t")
  case None
  with assms have "featureLayers t = Map.empty" "maskedFeatures t = []" "shown t = {}" "\<not> fulfilled t"
    by (simp_all add: tile_wf_def)
  then show ?thesis
    using None by (simp add: tile_wf_def shown_unmaskOne featureLayers_unmaskOne maskedFeatures_Nil_unmaskOne)
next
  case (Some fs)
  from assms Some have u: "unique_fids fs" and f: "fulfilled t"
    and m: "\<forall>i. masked t i \<longrightarrow> i \<in> fids fs"
    and fl: "\<forall>i l. featureLayers t (Some i) = Some l
                  \<longleftrightarrow> (\<exists>n<length fs. l = (n, fs ! n) \<and> fid_of (fs ! n) = Some i)"
    and sh: "shown t = {(n, fs ! n) | n. n < length fs \<and> \<not> (\<exists>i. fid_of (fs ! n) = Some i \<and> masked t i)}"
    by (simp_all add: tile_wf_def)
  have both: "featureLayers (unmaskOne t j) = featureLayers t \<and> shown (unmaskOne t j) =
      {(n, fs ! n) | n. n < length fs \<and> \<not> (\<exists>i. fid_of (fs ! n) = Some i \<and> masked (unmaskOne t j) i)}"
  proof (cases "j \<in> fids fs")
    case True
    then obtain n0 where n0: "n0 < length fs" "fid_of (fs ! n0) = Some j"
      by (auto simp: fids_nth)
    with fl have l: "featureLayers t (Some j) = Some (n0, fs ! n0)" by blast
    have same: "n = n0" if "n < length fs" "fid_of (fs ! n) = Some j" for n
      using unique_fids_nth [OF u that(1) n0(1) that(2) n0(2)] .
    have "featureLayers (unmaskOne t j) = featureLayers t"
      using l n0 by (simp add: featureLayers_unmaskOne fun_upd_idem)
    moreover have "shown (unmaskOne t j) =
      {(n, fs ! n) | n. n < length fs \<and> \<not> (\<exists>i. fid_of (fs ! n) = Some i \<and> masked (unmaskOne t j) i)}"
    proof -
      have "shown (unmaskOne t j) = insert (n0, fs ! n0) (shown t)"
        by (simp add: shown_unmaskOne l)
      also have "\<dots> = {(n, fs ! n) | n. n < length fs \<and> \<not> (\<exists>i. fid_of (fs ! n) = Some i \<and> (masked t i \<and> i \<noteq> j))}"
        unfolding sh using same n0 by (rule add_one_layer)
      finally show ?thesis by (simp only: masked_unmaskOne)
    qed
    ultimately show ?thesis ..
  next
    case False
    with fl have l: "featureLayers t (Some j) = None"
      by (metis fids_nth not_Some_eq)
    from False m have "\<not> masked t j" by blast
    then have "masked t i \<and> i \<noteq> j \<longleftrightarrow> masked t i" for i by blast
    then show ?thesis
      by (simp add: shown_unmaskOne featureLayers_unmaskOne l sh masked_unmaskOne)
  qed
  show ?thesis
    unfolding tile_wf_def
    using u f m fl both by (simp add: Some masked_unmaskOne)
qed


lemma tile_wf_unmaskOne_fold: "tile_wf t \<Longrightarrow> tile_wf (foldl unmaskOne t ks)"
  by (induction ks arbitrary: t) (simp_all add: tile_wf_unmaskOne)

lemma tile_wf_unmaskAll: "tile_wf t \<Longrightarrow> tile_wf (unmaskAll t)"
  by (simp add: unmaskAll_def tile_wf_unmaskOne_fold)


lemma addLayer_fold_data:
  "maskedFeatures (foldl tile_addLayer t ls) = maskedFeatures t
   \<and> fulfilled (foldl tile_addLayer t ls) = fulfilled t
   \<and> featureCollection (foldl tile_addLayer t ls) = featureCollection t
   \<and> hash (foldl tile_addLayer t ls) = hash t
   \<and> shown (foldl tile_addLayer t ls) = shown t \<union> set ls"
  by (induction ls arbitrary: t) (auto simp: tile_addLayer_def)

lemma addData_data [simp]:
  "maskedFeatures (addData t fs) = maskedFeatures t"
  "fulfilled (addData t fs) = fulfilled t"
  "featureCollection (addData t fs) = featureCollection t"
  "hash (addData t fs) = hash t"
  by (simp_all add: addData_def addLayer_fold_data)




text \<open>The readings of a state, with the tile named.\<close>

lemma tile_fulfilled_ex: "tile_fulfilled s k \<longleftrightarrow> (\<exists>t. tiles s k = Some t \<and> fulfilled t)"
  by (simp add: tile_fulfilled_def split: option.splits)

lemma tile_has_ex: "tile_has s k i \<longleftrightarrow> (\<exists>t. tiles s k = Some t \<and> i \<in> tile_fids t)"
  by (simp add: tile_has_def split: option.splits)

lemma tile_masked_ex: "tile_masked s k i \<longleftrightarrow> (\<exists>t. tiles s k = Some t \<and> masked t i)"
  by (simp add: tile_masked_def split: option.splits)


lemma masked_has_layer:
  assumes "tile_wf t" and "masked t i"
  shows "featureLayers t (Some i) \<noteq> None"
proof (cases "featureCollection t")
  case None
  with assms show ?thesis by (simp add: tile_wf_def masked_def)
next
  case (Some fs)
  with assms have "i \<in> fids fs"
    and fl: "\<forall>i l. featureLayers t (Some i) = Some l
                  \<longleftrightarrow> (\<exists>n<length fs. l = (n, fs ! n) \<and> fid_of (fs ! n) = Some i)"
    by (simp_all add: tile_wf_def)
  then obtain n where "n < length fs" "fid_of (fs ! n) = Some i" by (auto simp: fids_nth)
  with fl have "featureLayers t (Some i) = Some (n, fs ! n)" by blast
  then show ?thesis by simp
qed

section \<open>The registry of feature holders\<close>

lemma on_tile_fields [simp]:
  "tiles (on_tile s k f) k' = (if k' = k then map_option f (tiles s k) else tiles s k')"
  "activeTiles (on_tile s k f) = activeTiles s"
  "featureHolders (on_tile s k f) = featureHolders s"
  "lodLayers (on_tile s k f) = lodLayers s"
  "currentView (on_tile s k f) = currentView s"
  "tileIndex (on_tile s k f) = tileIndex s"
  "maxZoom (on_tile s k f) = maxZoom s"
  "tileSize (on_tile s k f) = tileSize s"
  by (simp_all add: on_tile_def split: option.splits)

lemma holders_on_tile [simp]: "holders (on_tile s k f) i = holders s i"
  by (simp add: holders_def)

lemma holders_upd [simp]:
  "holders (s\<lparr>featureHolders := h(i \<mapsto> ks)\<rparr>) j
   = (if j = i then ks else holders (s\<lparr>featureHolders := h\<rparr>) j)"
  by (simp add: holders_def)

lemma holders_same [simp]:
  "holders (s\<lparr>featureHolders := featureHolders s'\<rparr>) j = holders s' j"
  by (simp add: holders_def)


lemma tile_masked_holders_upd [simp]:
  "tile_masked (s\<lparr>featureHolders := h\<rparr>) k i = tile_masked s k i"
  "tile_has (s\<lparr>featureHolders := h\<rparr>) k i = tile_has s k i"
  "tile_fulfilled (s\<lparr>featureHolders := h\<rparr>) k = tile_fulfilled s k"
  by (simp_all add: tile_masked_ex tile_has_ex tile_fulfilled_ex)

lemma frame_refl [simp]: "frame s s"
  by (simp add: frame_def)

lemma frame_trans: "frame s s' \<Longrightarrow> frame s' s'' \<Longrightarrow> frame s s''"
  by (simp add: frame_def)

lemma frame_on_tile:
  assumes "\<And>t. fulfilled (f t) = fulfilled t" and "\<And>t. tile_fids (f t) = tile_fids t"
  shows "frame s (on_tile s k f)"
  using assms by (auto simp: frame_def tile_fulfilled_ex tile_has_ex)

lemma frame_holders_upd: "frame s (s\<lparr>featureHolders := h\<rparr>)"
  by (simp add: frame_def)











lemma removeHolder_skip:
  "fid_of feat = None \<or> (\<exists>i. fid_of feat = Some i \<and> featureHolders s i = None)
   \<Longrightarrow> removeHolder k s feat = s"
  by (auto simp: removeHolder_def)

lemma removeHolder_other:
  assumes "fid_of feat = Some i" and "featureHolders s i = Some ks"
    and "ks = [] \<or> hd ks \<noteq> k"
  shows "removeHolder k s feat =
     (on_tile s k (\<lambda>t. unmaskFeature t i))\<lparr>featureHolders := (featureHolders s)(i \<mapsto> filter (\<lambda>k'. k' \<noteq> k) ks)\<rparr>"
proof (cases ks)
  case Nil
  with assms show ?thesis by (simp add: removeHolder_def)
next
  case (Cons k0 rest)
  with assms have "k0 \<noteq> k" by simp
  with assms(1,2) Cons show ?thesis by (simp add: removeHolder_def)
qed

lemma removeHolder_first:
  assumes "fid_of feat = Some i" and "featureHolders s i = Some (k # rest)"
  shows "removeHolder k s feat =
     (case filter (\<lambda>k'. k' \<noteq> k) rest of
        [] \<Rightarrow> s\<lparr>featureHolders := (featureHolders s)(i \<mapsto> [])\<rparr>
      | k1 # r \<Rightarrow> on_tile (s\<lparr>featureHolders := (featureHolders s)(i \<mapsto> k1 # r)\<rparr>) k1
                    (\<lambda>t. unmaskFeature t i))"
  using assms by (simp add: removeHolder_def split: list.splits)

lemma removeHolder_cases:
  obtains (skip) "removeHolder k s feat = s"
      "fid_of feat = None \<or> (\<exists>i. fid_of feat = Some i \<and> featureHolders s i = None)"
    | (other) i ks where "fid_of feat = Some i" "featureHolders s i = Some ks" "ks = [] \<or> hd ks \<noteq> k"
    | (first) i rest where "fid_of feat = Some i" "featureHolders s i = Some (k # rest)"
proof (cases "fid_of feat")
  case None
  then show ?thesis using skip removeHolder_skip by blast
next
  case (Some i)
  show ?thesis
  proof (cases "featureHolders s i")
    case None
    with Some show ?thesis using skip removeHolder_skip by blast
  next
    case (Some ks)
    note ks = this
    show ?thesis
    proof (cases "ks = [] \<or> hd ks \<noteq> k")
      case True
      with \<open>fid_of feat = Some i\<close> ks show ?thesis using other by blast
    next
      case False
      then obtain rest where "ks = k # rest" by (cases ks) auto
      with \<open>fid_of feat = Some i\<close> ks show ?thesis using first by blast
    qed
  qed
qed

lemma frame_removeHolder: "frame s (removeHolder k s feat)"
proof (cases rule: removeHolder_cases [where k = k and s = s and feat = feat])
  case skip
  then show ?thesis by simp
next
  case (other i ks)
  have "frame s (on_tile s k (\<lambda>t. unmaskFeature t i))"
    by (simp add: frame_on_tile)
  then show ?thesis
    unfolding removeHolder_other [OF other]
    by (rule frame_trans) (rule frame_holders_upd)
next
  case (first i rest)
  show ?thesis
  proof (cases "filter (\<lambda>k'. k' \<noteq> k) rest")
    case Nil
    then show ?thesis
      by (simp add: removeHolder_first [OF first] frame_holders_upd)
  next
    case (Cons k1 r)
    have "frame s (s\<lparr>featureHolders := (featureHolders s)(i \<mapsto> k1 # r)\<rparr>)"
      by (rule frame_holders_upd)
    moreover have "frame (s\<lparr>featureHolders := (featureHolders s)(i \<mapsto> k1 # r)\<rparr>)
        (on_tile (s\<lparr>featureHolders := (featureHolders s)(i \<mapsto> k1 # r)\<rparr>) k1 (\<lambda>t. unmaskFeature t i))"
      by (simp add: frame_on_tile)
    ultimately show ?thesis
      by (simp add: removeHolder_first [OF first] Cons frame_trans)
  qed
qed











lemma tile_has_iff: "tiles s k = Some t \<Longrightarrow> tile_has s k i \<longleftrightarrow> i \<in> tile_fids t"
  by (simp add: tile_has_ex)








lemma lod_inv_not_held:
  assumes "lod_inv s" and "k \<notin> set (activeTiles s)"
  shows "k \<notin> set (holders s i)"
  using assms by (simp add: lod_inv_def)













lemma hideTile_inactive: "tileKey x y \<notin> set (activeTiles s) \<Longrightarrow> hideTile s x y = s"
  by (simp add: hideTile_def)

lemma hideTile_pending:
  assumes "tileKey x y \<in> set (activeTiles s)" and "tiles s (tileKey x y) = Some t" and "\<not> fulfilled t"
  shows "hideTile s x y = s\<lparr>activeTiles := removeAll (tileKey x y) (activeTiles s)\<rparr>"
  using assms by (simp add: hideTile_def Let_def)



section \<open>The invariant of a level of detail\<close>





lemma clearTile_step:
  "activeTiles (clearTile s k) = activeTiles s
   \<and> featureHolders (clearTile s k) = featureHolders s
   \<and> currentView (clearTile s k) = currentView s
   \<and> tileIndex (clearTile s k) = tileIndex s
   \<and> maxZoom (clearTile s k) = maxZoom s
   \<and> tileSize (clearTile s k) = tileSize s
   \<and> (\<forall>k'. (tiles (clearTile s k) k' = None) = (tiles s k' = None))
   \<and> (\<forall>k'. tile_fulfilled (clearTile s k) k' = tile_fulfilled s k')
   \<and> (\<forall>k' i. tile_has (clearTile s k) k' i = tile_has s k' i)
   \<and> (\<forall>k' i. tile_masked (clearTile s k) k' i \<longleftrightarrow> tile_masked s k' i \<and> \<not> (k' = k \<and> tile_fulfilled s k))
   \<and> lodLayers (clearTile s k) = lodLayers s - {k'. k' = k \<and> tile_fulfilled s k}
   \<and> ((\<forall>k' t. tiles s k' = Some t \<longrightarrow> tile_wf t) \<longrightarrow> (\<forall>k' t. tiles (clearTile s k) k' = Some t \<longrightarrow> tile_wf t))"
proof (cases "tiles s k")
  case None
  then show ?thesis by (simp add: clearTile_def tile_fulfilled_ex)
next
  case (Some t)
  show ?thesis
  proof (cases "fulfilled t")
    case False
    with Some show ?thesis by (simp add: clearTile_def tile_fulfilled_ex)
  next
    case True
    have eq: "clearTile s k = (lod_removeLayer s k)\<lparr>tiles := (tiles s)(k \<mapsto> unmaskAll t)\<rparr>"
      using Some True by (simp add: clearTile_def on_tile_def lod_removeLayer_def)
    have fu: "tile_fulfilled s k" using Some True by (simp add: tile_fulfilled_ex)
    show ?thesis
      unfolding eq using Some True fu
      by (auto simp: lod_removeLayer_def tile_fulfilled_ex tile_has_ex tile_masked_ex
            tile_wf_unmaskAll)
  qed
qed

lemma clearTile_fields [simp]:
  "activeTiles (clearTile s k) = activeTiles s"
  "featureHolders (clearTile s k) = featureHolders s"
  "currentView (clearTile s k) = currentView s"
  "tileIndex (clearTile s k) = tileIndex s"
  "maxZoom (clearTile s k) = maxZoom s"
  "tileSize (clearTile s k) = tileSize s"
  "(tiles (clearTile s k) k' = None) = (tiles s k' = None)"
  "tile_fulfilled (clearTile s k) k' = tile_fulfilled s k'"
  "tile_has (clearTile s k) k' i = tile_has s k' i"
  using clearTile_step [of s k] by simp_all




lemma clearTile_fold_fields [simp]:
  "activeTiles (foldl clearTile s ks) = activeTiles s"
  "featureHolders (foldl clearTile s ks) = featureHolders s"
  "currentView (foldl clearTile s ks) = currentView s"
  "tileIndex (foldl clearTile s ks) = tileIndex s"
  "maxZoom (foldl clearTile s ks) = maxZoom s"
  "tileSize (foldl clearTile s ks) = tileSize s"
  "(tiles (foldl clearTile s ks) k' = None) = (tiles s k' = None)"
  "tile_fulfilled (foldl clearTile s ks) k' = tile_fulfilled s k'"
  "tile_has (foldl clearTile s ks) k' i = tile_has s k' i"
  by (induction ks arbitrary: s; simp)+

















section \<open>What the operations do, for any data\<close>









lemma frame_removeHolder_fold: "frame s (foldl (removeHolder k) s fs)"
proof (induction fs arbitrary: s)
  case Nil
  show ?case by simp
next
  case (Cons f fs)
  from frame_removeHolder [of s k f] Cons.IH [of "removeHolder k s f"] show ?case
    by (simp add: frame_trans)
qed


lemma frame_removeFeatureHolders: "frame s (removeFeatureHolders s k)"
  by (simp add: removeFeatureHolders_def frame_removeHolder_fold split: option.splits)


lemma frame_fields:
  "(\<And>k. tile_fulfilled s' k = tile_fulfilled s k) \<Longrightarrow> (\<And>k i. tile_has s' k i = tile_has s k i)
   \<Longrightarrow> (\<And>k. (tiles s' k = None) = (tiles s k = None))
   \<Longrightarrow> activeTiles s' = activeTiles s \<Longrightarrow> lodLayers s' = lodLayers s
   \<Longrightarrow> currentView s' = currentView s \<Longrightarrow> tileIndex s' = tileIndex s
   \<Longrightarrow> maxZoom s' = maxZoom s \<Longrightarrow> tileSize s' = tileSize s \<Longrightarrow> frame s s'"
  by (simp add: frame_def)








text \<open>What the show step of \<open>updateView\<close> does, for any data.\<close>

lemma showCell_skip:
  "tileKey x y \<in> set (activeTiles s) \<or> tileIndex s (tileKey x y) = None
     \<or> tileIndex s (tileKey x y) = Some []
   \<Longrightarrow> showCell s x y = s"
  by (auto simp: showCell_def Let_def)


lemma new_tile_reads [simp]:
  "\<not> fulfilled (TiledGeoJSONTile_new h)" "tile_fids (TiledGeoJSONTile_new h) = {}"
  "\<not> masked (TiledGeoJSONTile_new h) i"
  by (simp_all add: TiledGeoJSONTile_new_def tile_fids_def masked_def)




















section \<open>The registry, for any data\<close>




























lemma tile_pendingD:
  assumes "tile_pending s k"
  obtains t where "tiles s k = Some t" "\<not> fulfilled t" "\<not> tile_fulfilled s k"
  using assms by (auto simp: tile_pending_def tile_fulfilled_def split: option.splits)





section \<open>Switching the level of detail\<close>





section \<open>Facts of the worked example\<close>

lemma example_keys: "tileKey 0 0 = ''0,0''" "tileKey 1 0 = ''1,0''"
  by code_simp+



text \<open>
  \<open>showTile\<close> itself has no guard against a tile that is already active: called on one that
  is fulfilled it would register the tile a second time. It is private and \<open>showCell\<close>,
  its only caller, does not call it then.
\<close>

lemma showTile_active_fulfilled_example:
  "tileKey 0 0 \<in> set (activeTiles shared_d)
   \<and> featureHolders shared_d 7 = Some [''0,0'', ''1,0'']
   \<and> featureHolders (showTile shared_d 0 0) 7 = Some [''0,0'', ''1,0'', ''0,0'']"
  by code_simp

section \<open>The claims\<close>

text \<open>
  C4. Every failed request is to be logged and retried, with a delay that starts at the base
  delay and doubles. The tile's load does that for every kind of failure
  (\<open>tile_loadTile_backoff\<close>), and so does the metadata load when the body cannot be read
  or parsed (\<open>loadMeta_backoff\<close>). When the metadata request itself is rejected, the
  chain of \<open>loadMeta\<close> ends in a rejection that nothing handles: no message, no retry.
  The tile's load, on the same outcome, schedules its first retry after 1000 ms.
\<close>

theorem C4_meta_fetch_rejection_not_retried:
  "loadMeta parse (Rejected e # rest) = [Unhandled e]
   \<and> tile_loadTile parse (Rejected e # rest)
       = Scheduled 1 1000 # run_load (loadTile_attempt parse) 2 rest"
  by (simp add: loadMeta_def tile_loadTile_def loadMeta_attempt_def loadTile_attempt_def
        then_p_def catch_p_def retry_def)

text \<open>
  C6. For a non-empty list of levels of detail and the effective zoom \<open>z\<close> (the map zoom,
  plus one when the retina option is set and the display is a retina display), the selection
  returns a level of the list; when some level has a maximum zoom of at least \<open>z\<close>, the one
  returned has the smallest maximum zoom among those; otherwise it has the largest maximum
  zoom of all. For the maximum zooms 2, 4 and 6: zoom 3 selects 4, zoom 7 selects 6 and
  zoom 2 selects 2.
\<close>

theorem C6_lod_selection:
  "(mz \<noteq> [] \<longrightarrow>
      (\<exists>k<length mz.
         chooseBestLod (effectiveZoom mapZoom dr retina) mz = Some k
         \<and> effectiveZoom mapZoom dr retina = (if dr \<and> retina then mapZoom + 1 else mapZoom)
         \<and> ((\<exists>i<length mz. effectiveZoom mapZoom dr retina \<le> mz ! i) \<longrightarrow>
              effectiveZoom mapZoom dr retina \<le> mz ! k
              \<and> (\<forall>i<length mz. effectiveZoom mapZoom dr retina \<le> mz ! i \<longrightarrow> mz ! k \<le> mz ! i))
         \<and> (\<not> (\<exists>i<length mz. effectiveZoom mapZoom dr retina \<le> mz ! i) \<longrightarrow>
              (\<forall>i<length mz. mz ! i \<le> mz ! k))))
   \<and> map_option (\<lambda>k. [2, 4, 6 :: real] ! k) (chooseBestLod 3 [2, 4, 6]) = Some 4
   \<and> map_option (\<lambda>k. [2, 4, 6 :: real] ! k) (chooseBestLod 7 [2, 4, 6]) = Some 6
   \<and> map_option (\<lambda>k. [2, 4, 6 :: real] ! k) (chooseBestLod 2 [2, 4, 6]) = Some 2"
proof -
  let ?z = "effectiveZoom mapZoom dr retina"
  have general: "\<exists>k<length mz.
         chooseBestLod ?z mz = Some k
         \<and> ?z = (if dr \<and> retina then mapZoom + 1 else mapZoom)
         \<and> ((\<exists>i<length mz. ?z \<le> mz ! i) \<longrightarrow>
              ?z \<le> mz ! k \<and> (\<forall>i<length mz. ?z \<le> mz ! i \<longrightarrow> mz ! k \<le> mz ! i))
         \<and> (\<not> (\<exists>i<length mz. ?z \<le> mz ! i) \<longrightarrow> (\<forall>i<length mz. mz ! i \<le> mz ! k))"
    if ne: "mz \<noteq> []"
  proof (cases "\<exists>i<length mz. ?z \<le> mz ! i")
    case True
    from chooseBestLod_fit [OF True] True show ?thesis
      by (auto simp: effectiveZoom_def)
  next
    case False
    then have "\<forall>i<length mz. \<not> ?z \<le> mz ! i" by blast
    from chooseBestLod_fallback [OF ne this] False show ?thesis
      by (auto simp: effectiveZoom_def)
  qed
  have e1: "chooseBestLod 3 [2, 4, 6] = Some 1"
    by (simp add: chooseBestLod_def fitStep_def fallbackStep_def)
  have e2: "chooseBestLod 7 [2, 4, 6] = Some 2"
    by (simp add: chooseBestLod_def fitStep_def fallbackStep_def)
  have e3: "chooseBestLod 2 [2, 4, 6] = Some 0"
    by (simp add: chooseBestLod_def fitStep_def fallbackStep_def)
  from general show ?thesis
    by (simp add: e1 e2 e3)
qed

theorem C6_lod_selection_witness:
  "[6, 2, 4] \<noteq> ([] :: real list)
   \<and> chooseBestLod (effectiveZoom 2 True True) [6, 2, 4] = Some 2
   \<and> effectiveZoom 2 True True \<le> [6, 2, 4] ! 2
   \<and> [6, 2, 4 :: real] ! 2 \<le> [6, 2, 4] ! 0"
proof -
  let ?mz = "[6, 2, 4] :: real list"
  let ?z = "effectiveZoom 2 True True"
  have ne: "?mz \<noteq> []" by simp
  have v: "chooseBestLod ?z ?mz = Some 2"
    by (simp add: effectiveZoom_def chooseBestLod_def fitStep_def fallbackStep_def)
  have fits: "\<exists>i<length ?mz. ?z \<le> ?mz ! i"
    by (rule exI [of _ 0]) (simp add: effectiveZoom_def)
  note g = C6_lod_selection [of ?mz 2 True True, THEN conjunct1, THEN mp, OF ne]
  then obtain k where k: "chooseBestLod ?z ?mz = Some k"
    and fit: "(\<exists>i<length ?mz. ?z \<le> ?mz ! i) \<longrightarrow>
              ?z \<le> ?mz ! k \<and> (\<forall>i<length ?mz. ?z \<le> ?mz ! i \<longrightarrow> ?mz ! k \<le> ?mz ! i)"
    by (elim exE conjE)
  from k v have k2: "k = 2" by simp
  from fit fits have a: "?z \<le> ?mz ! k"
    and b: "\<forall>i<length ?mz. ?z \<le> ?mz ! i \<longrightarrow> ?mz ! k \<le> ?mz ! i"
    by (rule mp [THEN conjunct1], rule mp [THEN conjunct2])
  have "(0::nat) < length ?mz" by simp
  moreover have "?z \<le> ?mz ! 0" by (simp add: effectiveZoom_def)
  ultimately have c: "?mz ! k \<le> ?mz ! 0" using b by (elim allE [of _ 0]) (rule mp [OF mp])
  from ne v a c show ?thesis unfolding k2 by (intro conjI)
qed













text \<open>
  C8. The show step of the view update for a cell whose key is active leaves the whole state
  unchanged, and so does hiding a cell whose key is not active.
\<close>

theorem C8_show_hide_noop:
  "(tileKey x y \<in> set (activeTiles s) \<longrightarrow> showCell s x y = s)
   \<and> (tileKey x y \<notin> set (activeTiles s) \<longrightarrow> hideTile s x y = s)"
  by (simp add: showCell_skip hideTile_inactive)

theorem C8_show_hide_noop_witness:
  "tileKey 0 0 \<in> set (activeTiles shared_d) \<and> showCell shared_d 0 0 = shared_d
   \<and> tileKey 4 2 \<notin> set (activeTiles shared_d) \<and> hideTile shared_d 4 2 = shared_d"
proof -
  have a: "tileKey 0 0 \<in> set (activeTiles shared_d)" by code_simp
  have b: "tileKey 4 2 \<notin> set (activeTiles shared_d)" by code_simp
  from C8_show_hide_noop [of 0 0 shared_d] a have c: "showCell shared_d 0 0 = shared_d" by blast
  from C8_show_hide_noop [of 4 2 shared_d] b have d: "hideTile shared_d 4 2 = shared_d" by blast
  from a b c d show ?thesis by blast
qed



text \<open>
  C10. Hiding an active tile whose data has not arrived removes its key from the active
  keys and changes nothing else: the registry, the layer group, the tiles with their masks
  and the stored view stay as they were.
\<close>

theorem C10_hide_pending:
  assumes "tileKey x y \<in> set (activeTiles s)" and "tile_pending s (tileKey x y)"
  shows "hideTile s x y = s\<lparr>activeTiles := removeAll (tileKey x y) (activeTiles s)\<rparr>
     \<and> set (activeTiles (hideTile s x y)) = set (activeTiles s) - {tileKey x y}
     \<and> featureHolders (hideTile s x y) = featureHolders s
     \<and> lodLayers (hideTile s x y) = lodLayers s
     \<and> tiles (hideTile s x y) = tiles s
     \<and> currentView (hideTile s x y) = currentView s"
proof -
  from assms(2) obtain t where t: "tiles s (tileKey x y) = Some t" "\<not> fulfilled t"
    by (rule tile_pendingD)
  from hideTile_pending [OF assms(1) t] show ?thesis by simp
qed

theorem C10_hide_pending_witness:
  "tileKey 0 0 \<in> set (activeTiles shared_a) \<and> tile_pending shared_a (tileKey 0 0)
   \<and> set (activeTiles (hideTile shared_a 0 0)) = set (activeTiles shared_a) - {tileKey 0 0}
   \<and> featureHolders (hideTile shared_a 0 0) = featureHolders shared_a
   \<and> lodLayers (hideTile shared_a 0 0) = lodLayers shared_a
   \<and> tiles (hideTile shared_a 0 0) = tiles shared_a"
proof -
  have h: "tileKey 0 0 \<in> set (activeTiles shared_a)" "tile_pending shared_a (tileKey 0 0)"
    by code_simp+
  from C10_hide_pending [OF h] h show ?thesis by blast
qed

end
